theory Spec2Isabelle
  imports Main
begin

section \<open>Python strings\<close>

text \<open>
  A Python \<open>str\<close> is modelled as a \<open>string\<close>: a list of characters with code points
  below 256. The operations below are the \<open>str\<close> methods that
  \<open>autonomous_paint_agent.py\<close> calls, restricted to that range.
\<close>

definition newline :: string where
  "newline = [CHR 0x0A]"

text \<open>\<open>str.isspace\<close> on one character: the code points 9..13, 28..32, 133 and 160.\<close>

definition isspace :: "char \<Rightarrow> bool" where
  "isspace c =
     (let n = (of_char c :: nat)
      in (9 \<le> n \<and> n \<le> 13) \<or> (28 \<le> n \<and> n \<le> 32) \<or> n = 133 \<or> n = 160)"

text \<open>\<open>s.strip()\<close>: leading and trailing whitespace removed.\<close>

definition strip :: "string \<Rightarrow> string" where
  "strip s = rev (dropWhile isspace (rev (dropWhile isspace s)))"

text \<open>\<open>s.startswith(p)\<close>.\<close>

definition startswith :: "string \<Rightarrow> string \<Rightarrow> bool" where
  "startswith s p = (take (length p) s = p)"

text \<open>
  \<open>s.split(sep)\<close> for a one-character separator: the fields between the separators, in
  order; the empty string gives one empty field.
\<close>

fun py_split :: "char \<Rightarrow> string \<Rightarrow> string list" where
  "py_split sep [] = [[]]"
| "py_split sep (c # cs) =
     (if c = sep then [] # py_split sep cs
      else (case py_split sep cs of
              [] \<Rightarrow> [[c]]
            | f # fs \<Rightarrow> (c # f) # fs))"

text \<open>
  \<open>s.split(sep, 1)\<close>: at most one split, at the first separator. The result has two
  elements when the separator occurs and one otherwise.
\<close>

definition py_split1 :: "char \<Rightarrow> string \<Rightarrow> string list" where
  "py_split1 sep s =
     (case dropWhile (\<lambda>c. c \<noteq> sep) s of
        [] \<Rightarrow> [s]
      | _ # rest \<Rightarrow> [takeWhile (\<lambda>c. c \<noteq> sep) s, rest])"

text \<open>\<open>sep.join(xs)\<close>.\<close>

fun py_join :: "string \<Rightarrow> string list \<Rightarrow> string" where
  "py_join sep [] = []"
| "py_join sep [x] = x"
| "py_join sep (x # y # ys) = x @ sep @ py_join sep (y # ys)"

text \<open>\<open>str(n)\<close> for a non-negative integer: its decimal digits.\<close>

definition digit_char :: "nat \<Rightarrow> char" where
  "digit_char d = char_of (48 + d)"

fun str_nat :: "nat \<Rightarrow> string" where
  "str_nat n = (if n < 10 then [digit_char n] else str_nat (n div 10) @ [digit_char (n mod 10)])"

declare str_nat.simps [simp del]

text \<open>
  \<open>int(s)\<close> in base 10: surrounding whitespace is ignored, then an optional sign, then
  decimal digits, where single underscores may stand between two digits. Anything else
  raises \<open>ValueError\<close>, here \<open>None\<close>. (The interpreter's limit on the number of digits
  is not modelled.)
\<close>

definition isdigit :: "char \<Rightarrow> bool" where
  "isdigit c = (let n = (of_char c :: nat) in 48 \<le> n \<and> n \<le> 57)"

definition digit_value :: "char \<Rightarrow> nat" where
  "digit_value c = of_char c - 48"

fun parse_digits :: "nat \<Rightarrow> bool \<Rightarrow> string \<Rightarrow> nat option" where
  "parse_digits acc prev [] = (if prev then Some acc else None)"
| "parse_digits acc prev (c # cs) =
     (if isdigit c then parse_digits (10 * acc + digit_value c) True cs
      else if c = CHR ''_'' \<and> prev then parse_digits acc False cs
      else None)"

definition py_int :: "string \<Rightarrow> int option" where
  "py_int s =
     (case strip s of
        [] \<Rightarrow> None
      | c # cs \<Rightarrow>
          if c = CHR ''-'' then map_option (\<lambda>n. - int n) (parse_digits 0 False cs)
          else if c = CHR ''+'' then map_option int (parse_digits 0 False cs)
          else map_option int (parse_digits 0 False (c # cs)))"

section \<open>Errors and directives\<close>

text \<open>
  The exceptions that the loop body of \<open>main\<close> can meet, as values. They are the ones
  that \<open>except Exception\<close> catches; an interrupt or a cancelled coroutine is not part
  of the model.
\<close>

datatype py_error =
    ValueError string
  | IndexError
  | AttributeError
  | TimeoutError
  | UnicodeEncodeError
  | OtherError string

text \<open>
  One turn of model output, classified as lines 249, 358 and 363 of the source do: a
  function call with its name and positional parameters, a final answer, or anything
  else.
\<close>

datatype directive =
    Call string "string list"
  | Final string
  | Malformed string

text \<open>
  Lines 249 to 253 and the tests of lines 358 and 363. The tuple assignment of line 251
  raises \<open>ValueError\<close> unless the split gives two elements, and \<open>parts[0]\<close> raises
  \<open>IndexError\<close> on an empty list; both stay branches of the model.
\<close>

definition parse_directive :: "string \<Rightarrow> py_error + directive" where
  "parse_directive response_text =
     (if startswith response_text ''FUNCTION_CALL:'' then
        (case py_split1 CHR '':'' response_text of
           [_, function_info] \<Rightarrow>
             (case map strip (py_split CHR ''|'' function_info) of
                [] \<Rightarrow> Inl IndexError
              | func_name # params \<Rightarrow> Inr (Call func_name params))
         | _ \<Rightarrow> Inl (ValueError ''not enough values to unpack''))
      else if startswith response_text ''FINAL_ANSWER:'' then Inr (Final response_text)
      else Inr (Malformed response_text))"

section \<open>Argument mapping\<close>

text \<open>
  The named arguments of a tool call are a Python dictionary from argument names to
  strings or integers, written as the dictionary literal lists them.
\<close>

datatype pyval = PStr string | PInt int

type_synonym arguments = "(string \<times> pyval) list"

text \<open>
  The three functions of \<open>os.path\<close> that the mapper calls. They belong to the platform,
  not to this program, and their answers depend on the file system, so they are operations
  of the environment.
\<close>

record os_path =
  path_exists :: "string \<Rightarrow> bool"
  path_join :: "string list \<Rightarrow> string"
  path_abspath :: "string \<Rightarrow> string"

text \<open>Lines 294 to 311: the search for the file to attach.\<close>

definition attachment_path :: "os_path \<Rightarrow> string \<Rightarrow> string" where
  "attachment_path os filename =
     (if path_exists os filename then filename
      else
        (let assignment_path = path_join os [''Assignment'', filename]
         in if path_exists os assignment_path then assignment_path
            else
              (let session_path = path_join os [''Session4'', ''Assignment'', filename]
               in if path_exists os session_path then session_path
                  else path_abspath os filename)))"

text \<open>\<open>int(p)\<close>, with the \<open>ValueError\<close> it raises carrying the rejected literal.\<close>

definition int_of_param :: "string \<Rightarrow> py_error + int" where
  "int_of_param p = (case py_int p of None \<Rightarrow> Inl (ValueError p) | Some n \<Rightarrow> Inr n)"

definition default_subject :: string where
  "default_subject = ''ASCII Calculation Result''"

definition default_body :: "string \<Rightarrow> string" where
  "default_body user_input =
     ''Here is the ASCII calculation result for '' @ [CHR 0x27] @ user_input @ [CHR 0x27]"

text \<open>
  Lines 256 to 328: the dictionary \<open>arguments\<close> built from the function name and the
  positional parameters. It starts empty and a branch that assigns nothing leaves it
  empty. The dictionary literal of \<open>draw_rectangle\<close> evaluates its four conversions in
  order, so the first one that fails is the one that raises.
\<close>

definition map_arguments ::
    "os_path \<Rightarrow> string \<Rightarrow> string \<Rightarrow> string \<Rightarrow> string list \<Rightarrow> py_error + arguments" where
  "map_arguments os user_input recipient_email func_name params =
     (if func_name = ''ascii_exp_sum'' then Inr [(''input_string'', PStr user_input)]
      else if func_name = ''open_paint'' then Inr []
      else if func_name = ''draw_rectangle'' then
        (if length params \<ge> 4 then
           (case int_of_param (params ! 0) of
              Inl e \<Rightarrow> Inl e
            | Inr x1 \<Rightarrow>
           (case int_of_param (params ! 1) of
              Inl e \<Rightarrow> Inl e
            | Inr y1 \<Rightarrow>
           (case int_of_param (params ! 2) of
              Inl e \<Rightarrow> Inl e
            | Inr x2 \<Rightarrow>
           (case int_of_param (params ! 3) of
              Inl e \<Rightarrow> Inl e
            | Inr y2 \<Rightarrow>
                Inr [(''x1'', PInt x1), (''y1'', PInt y1), (''x2'', PInt x2), (''y2'', PInt y2)]))))
         else Inr [])
      else if func_name = ''add_text_in_paint'' then
        (if params \<noteq> [] then Inr [(''text'', PStr (params ! 0))] else Inr [])
      else if func_name = ''save_paint_file'' then
        (if params \<noteq> [] then Inr [(''filename'', PStr (params ! 0))] else Inr [])
      else if func_name = ''email_ascii_image'' then
        (if length params \<ge> 3 then
           Inr [(''to_address'', PStr recipient_email),
                (''subject'', PStr (params ! 1)),
                (''body'', PStr (params ! 2))]
         else
           Inr [(''to_address'', PStr recipient_email),
                (''subject'', PStr default_subject),
                (''body'', PStr (default_body user_input))])
      else if func_name = ''send_email_with_attachment'' then
        (if length params \<ge> 4 then
           Inr [(''to_address'', PStr recipient_email),
                (''subject'', PStr (params ! 1)),
                (''body'', PStr (params ! 2)),
                (''attachment_path'', PStr (attachment_path os (params ! 3)))]
         else
           Inr [(''to_address'', PStr recipient_email),
                (''subject'', PStr default_subject),
                (''body'', PStr (default_body user_input)),
                (''attachment_path'', PStr ''paint_visualization.png'')])
      else Inr [])"

section \<open>The session\<close>

text \<open>
  What \<open>main\<close> fixes before the loop starts: the system prompt, the string entered by the
  user and the recipient address (lines 188 to 231). None of them is assigned again.
\<close>

record session =
  system_prompt :: string
  user_input :: string
  recipient_email :: string

text \<open>
  The loop talks to the model, to the tool provider, to the file system and to the
  standard output. Each generation request and each call of a tool is recorded, in order,
  in a trace; so is each of the four statements with which the loop reports how it ended
  (lines 359, 364, 368 and 374), when the loop reaches it.
\<close>

datatype notice =
    AgentComplete string
  | UnexpectedFormat string
  | IterationError nat py_error
  | MaxIterationsReached

text \<open>
  The object returned by \<open>session.call_tool\<close>, as far as lines 336 to 342 look at it: a
  \<open>content\<close> attribute holding a list (of each element, whether it has a \<open>text\<close>), a
  \<open>content\<close> of another type (its \<open>str\<close>), or no such attribute (the \<open>str\<close> of the
  result).
\<close>

datatype tool_result =
    ContentList "string option list"
  | ContentOther string
  | NoContent string

datatype 'a outcome = Raised py_error | Returned 'a

text \<open>
  A call of a tool is recorded with the name and the arguments it was given and with what
  \<open>session.call_tool\<close> did: raise, or return a result.
\<close>

datatype event =
    Generate string
  | Invoke string arguments "tool_result outcome"
  | Print notice

text \<open>
  The environment answers as a function of everything that has happened so far, so that
  the model, the tools and the file system may answer differently each time.

  \<open>generate_with_timeout\<close> stands for lines 245 to 247: \<open>Returned\<close> gives
  \<open>response.text\<close> (which may be \<open>None\<close>) and says, for a text, that line 247 has
  printed it stripped; \<open>Raised\<close> is an exception of the request, \<open>TimeoutError\<close>
  included, or of that print.

  \<open>stdout_encodes\<close> tells which characters beyond ASCII the encoding of the standard
  output has. A \<open>print\<close> raises \<open>UnicodeEncodeError\<close> when it meets another one; other
  failures of the standard output are not modelled.
\<close>

record environment =
  generate_with_timeout :: "event list \<Rightarrow> string \<Rightarrow> string option outcome"
  call_tool :: "event list \<Rightarrow> string \<Rightarrow> arguments \<Rightarrow> tool_result outcome"
  os_path_at :: "event list \<Rightarrow> os_path"
  stdout_encodes :: "char \<Rightarrow> bool"

text \<open>
  \<open>print(s)\<close> returns: every character of \<open>s\<close> is ASCII, that is has its highest
  bit clear, or can be encoded.
\<close>

definition printable :: "environment \<Rightarrow> string \<Rightarrow> bool" where
  "printable env s = list_all (\<lambda>c. if digit7 c then stdout_encodes env c else True) s"

text \<open>
  Inside a dictionary a string is printed as its \<open>repr\<close>, which escapes the characters
  that are not printable into ASCII. Beyond ASCII it keeps the code points from 161 on,
  except 173.
\<close>

definition repr_keeps :: "char \<Rightarrow> bool" where
  "repr_keeps c = (let n = (of_char c :: nat) in 161 \<le> n \<and> n \<noteq> 173)"

definition printable_value :: "environment \<Rightarrow> pyval \<Rightarrow> bool" where
  "printable_value env v =
     (case v of
        PStr s \<Rightarrow> list_all (\<lambda>c. if repr_keeps c then stdout_encodes env c else True) s
      | PInt _ \<Rightarrow> True)"

text \<open>
  Lines 313 and 330 print before the tool is called. Line 313 prints the attachment path,
  in the branch of lines 292 to 320 only. Line 330 prints the function name, which line
  247 has printed already as a part of the response, and the dictionary, whose keys are
  ASCII: it raises when a value cannot be printed.
\<close>

definition attachment_printed :: "environment \<Rightarrow> os_path \<Rightarrow> string \<Rightarrow> string list \<Rightarrow> bool" where
  "attachment_printed env os func_name params =
     (if func_name = ''send_email_with_attachment'' \<and> length params \<ge> 4
      then printable env (attachment_path os (params ! 3))
      else True)"

definition arguments_printed :: "environment \<Rightarrow> arguments \<Rightarrow> bool" where
  "arguments_printed env arguments = list_all (\<lambda>(name, v). printable_value env v) arguments"

text \<open>The globals of lines 43 to 45, the local \<open>query\<close>, and the trace.\<close>

definition max_iterations :: nat where
  "max_iterations = 10"

record state =
  iteration :: nat
  iteration_response :: "string list"
  query :: string
  trace :: "event list"

text \<open>Lines 336 to 342: the text read from the result of a call.\<close>

definition result_text :: "tool_result \<Rightarrow> py_error + string" where
  "result_text result =
     (case result of
        ContentList [] \<Rightarrow> Inl IndexError
      | ContentList (None # _) \<Rightarrow> Inl AttributeError
      | ContentList (Some t # _) \<Rightarrow> Inr t
      | ContentOther s \<Rightarrow> Inr s
      | NoContent s \<Rightarrow> Inr s)"

text \<open>Line 345: the entry appended to \<open>iteration_response\<close>.\<close>

definition transcript_entry :: "nat \<Rightarrow> string \<Rightarrow> string \<Rightarrow> string" where
  "transcript_entry it func_name text =
     ''In iteration '' @ str_nat (it + 1) @ '', '' @ func_name @ '' returned: '' @ text"

text \<open>Line 234 and lines 348 to 351: the query before the first turn and after each call.\<close>

definition initial_query :: "session \<Rightarrow> string" where
  "initial_query cfg =
     ''Calculate the ASCII exponential sum for '' @ [CHR 0x22] @ user_input cfg @ [CHR 0x22]
       @ '', visualize it in Paint, and email it to '' @ recipient_email cfg @ ''.''"

definition next_query :: "string list \<Rightarrow> string" where
  "next_query responses =
     ''Previous steps and results:'' @ newline @ py_join newline responses
       @ newline @ newline @ ''What should be the next step?''"

definition prompt_of :: "session \<Rightarrow> state \<Rightarrow> string" where
  "prompt_of cfg s = system_prompt cfg @ newline @ newline @ ''Query: '' @ query s"

text \<open>
  One pass through the body of the \<open>while\<close> loop (lines 238 to 369) either reaches the
  increment of line 371 or leaves the loop through one of its three \<open>break\<close>s.
\<close>

datatype step = Continue state | Break state

text \<open>Lines 367 to 369: any exception of the pass is reported with the pass number.\<close>

definition fail :: "state \<Rightarrow> event list \<Rightarrow> py_error \<Rightarrow> step" where
  "fail s tr e = Break (s\<lparr>trace := tr @ [Print (IterationError (iteration s + 1) e)]\<rparr>)"

text \<open>
  The body of the loop, statement by statement. After a call that returned a readable
  result, line 345 appends the entry and line 348 updates the query; then line 353 prints
  the query, still inside the \<open>try\<close>. The query holds the text of the tool, which
  nothing has printed before: when this print raises, the pass breaks with the entry
  appended and the counter not incremented.
\<close>

definition loop_body :: "environment \<Rightarrow> session \<Rightarrow> state \<Rightarrow> step" where
  "loop_body env cfg s =
     (let prompt = prompt_of cfg s;
          tr = trace s @ [Generate prompt]
      in case generate_with_timeout env (trace s) prompt of
           Raised e \<Rightarrow> fail s tr e
         | Returned None \<Rightarrow> fail s tr AttributeError
         | Returned (Some text) \<Rightarrow>
             (let response_text = strip text
              in case parse_directive response_text of
                   Inl e \<Rightarrow> fail s tr e
                 | Inr (Final _) \<Rightarrow>
                     Break (s\<lparr>trace := tr @ [Print (AgentComplete response_text)]\<rparr>)
                 | Inr (Malformed _) \<Rightarrow>
                     Break (s\<lparr>trace := tr @ [Print (UnexpectedFormat response_text)]\<rparr>)
                 | Inr (Call func_name params) \<Rightarrow>
                     (case map_arguments (os_path_at env tr) (user_input cfg)
                             (recipient_email cfg) func_name params of
                        Inl e \<Rightarrow> fail s tr e
                      | Inr arguments \<Rightarrow>
                          if \<not> attachment_printed env (os_path_at env tr) func_name params
                          then fail s tr UnicodeEncodeError
                          else if \<not> arguments_printed env arguments
                          then fail s tr UnicodeEncodeError
                          else
                            (let called = call_tool env tr func_name arguments;
                                 tr' = tr @ [Invoke func_name arguments called]
                             in case called of
                                  Raised e \<Rightarrow> fail s tr' e
                                | Returned result \<Rightarrow>
                                    (case result_text result of
                                       Inl e \<Rightarrow> fail s tr' e
                                     | Inr text \<Rightarrow>
                                         (let responses = iteration_response s
                                                @ [transcript_entry (iteration s) func_name text];
                                              appended = s\<lparr>iteration_response := responses,
                                                           query := next_query responses,
                                                           trace := tr'\<rparr>
                                          in if printable env (next_query responses)
                                             then Continue appended
                                             else fail appended tr' UnicodeEncodeError))))))"

text \<open>
  Lines 237 and 371: the loop runs while \<open>iteration\<close> is below \<open>max_iterations\<close> and counts
  a pass only when the pass did not break.
\<close>

function main_loop :: "environment \<Rightarrow> session \<Rightarrow> state \<Rightarrow> state" where
  "main_loop env cfg s =
     (if iteration s < max_iterations then
        (case loop_body env cfg s of
           Break s' \<Rightarrow> s'
         | Continue s' \<Rightarrow> main_loop env cfg (s'\<lparr>iteration := iteration s' + 1\<rparr>))
      else s)"
  by pat_completeness auto
termination
proof (relation "measure (\<lambda>(env, cfg, s). max_iterations - iteration s)")
  show "wf (measure (\<lambda>(env, cfg, s). max_iterations - iteration s))"
    by simp
next
  fix env :: environment and cfg :: session and s s' :: state
  assume running: "iteration s < max_iterations"
    and pass: "loop_body env cfg s = Continue s'"
  from pass have "iteration s' = iteration s"
    by (auto simp: loop_body_def fail_def Let_def
          split: outcome.splits option.splits sum.splits directive.splits if_splits)
  with running
  show "((env, cfg, s'\<lparr>iteration := iteration s' + 1\<rparr>), (env, cfg, s))
          \<in> measure (\<lambda>(env, cfg, s). max_iterations - iteration s)"
    by simp
qed

declare main_loop.simps [simp del]

text \<open>
  The states in which the loop condition of line 237 is evaluated, in order: the same
  recursion as \<open>main_loop\<close>, keeping each state instead of the last one only.
\<close>

function loop_heads :: "environment \<Rightarrow> session \<Rightarrow> state \<Rightarrow> state list" where
  "loop_heads env cfg s =
     (if iteration s < max_iterations then
        (case loop_body env cfg s of
           Break s' \<Rightarrow> [s]
         | Continue s' \<Rightarrow> s # loop_heads env cfg (s'\<lparr>iteration := iteration s' + 1\<rparr>))
      else [s])"
  by pat_completeness auto
termination
proof (relation "measure (\<lambda>(env, cfg, s). max_iterations - iteration s)")
  show "wf (measure (\<lambda>(env, cfg, s). max_iterations - iteration s))"
    by simp
next
  fix env :: environment and cfg :: session and s s' :: state
  assume running: "iteration s < max_iterations"
    and pass: "loop_body env cfg s = Continue s'"
  from pass have "iteration s' = iteration s"
    by (auto simp: loop_body_def fail_def Let_def
          split: outcome.splits option.splits sum.splits directive.splits if_splits)
  with running
  show "((env, cfg, s'\<lparr>iteration := iteration s' + 1\<rparr>), (env, cfg, s))
          \<in> measure (\<lambda>(env, cfg, s). max_iterations - iteration s)"
    by simp
qed

declare loop_heads.simps [simp del]

text \<open>Lines 373 to 375: the notice printed after the loop.\<close>

definition report_max :: "state \<Rightarrow> state" where
  "report_max s =
     (if iteration s \<ge> max_iterations then s\<lparr>trace := trace s @ [Print MaxIterationsReached]\<rparr>
      else s)"

text \<open>
  The loop and what follows it, from any state; and the whole session, from the state in
  which the module leaves its globals (lines 44 and 45) and line 234 leaves \<open>query\<close>.
\<close>

definition run_from :: "environment \<Rightarrow> session \<Rightarrow> state \<Rightarrow> state" where
  "run_from env cfg s = report_max (main_loop env cfg s)"

definition initial_state :: "session \<Rightarrow> state" where
  "initial_state cfg =
     \<lparr>iteration = 0, iteration_response = [], query = initial_query cfg, trace = []\<rparr>"

definition run_session :: "environment \<Rightarrow> session \<Rightarrow> state" where
  "run_session env cfg = run_from env cfg (initial_state cfg)"

text \<open>
  The four ways in which a pass breaks, as lemma \<open>loop_body_Break\<close> shows: before any
  call, with one of the messages; on a call that raised; on a call that returned a result
  which could not be read; and, with the entry appended, on the print of the new query.
\<close>

inductive breaks :: "session \<Rightarrow> state \<Rightarrow> state \<Rightarrow> bool" for cfg s where
  before_call:
    "n \<noteq> MaxIterationsReached \<Longrightarrow>
     breaks cfg s (s\<lparr>trace := trace s @ [Generate (prompt_of cfg s), Print n]\<rparr>)"
| call_raised:
    "breaks cfg s
       (s\<lparr>trace := trace s
            @ [Generate (prompt_of cfg s), Invoke func_name arguments (Raised e),
               Print (IterationError (Suc (iteration s)) e)]\<rparr>)"
| result_unreadable:
    "result_text result = Inl e \<Longrightarrow>
     breaks cfg s
       (s\<lparr>trace := trace s
            @ [Generate (prompt_of cfg s), Invoke func_name arguments (Returned result),
               Print (IterationError (Suc (iteration s)) e)]\<rparr>)"
| query_unprintable:
    "breaks cfg s
       (s\<lparr>iteration_response :=
             iteration_response s @ [transcript_entry (iteration s) func_name text],
           query := next_query
             (iteration_response s @ [transcript_entry (iteration s) func_name text]),
           trace := trace s
             @ [Generate (prompt_of cfg s), Invoke func_name arguments (Returned result),
                Print (IterationError (Suc (iteration s)) UnicodeEncodeError)]\<rparr>)"

section \<open>Observations on a trace\<close>

fun is_generate :: "event \<Rightarrow> bool" where
  "is_generate (Generate _) = True"
| "is_generate _ = False"

fun is_invoke :: "event \<Rightarrow> bool" where
  "is_invoke (Invoke _ _ _) = True"
| "is_invoke _ = False"

text \<open>An invocation is successful when the remote call returned, that is did not raise.\<close>

fun is_success :: "event \<Rightarrow> bool" where
  "is_success (Invoke _ _ (Returned _)) = True"
| "is_success _ = False"

definition generation_requests :: "event list \<Rightarrow> nat" where
  "generation_requests tr = length (filter is_generate tr)"

definition tool_invocations :: "event list \<Rightarrow> nat" where
  "tool_invocations tr = length (filter is_invoke tr)"

definition successful_invocations :: "event list \<Rightarrow> nat" where
  "successful_invocations tr = length (filter is_success tr)"

text \<open>
  At the top of a pass that follows only completed passes, every pass so far has made
  one generation request and one successful invocation and has added one entry.
\<close>

definition counted :: "state \<Rightarrow> bool" where
  "counted s \<longleftrightarrow>
     generation_requests (trace s) = iteration s
   \<and> tool_invocations (trace s) = iteration s
   \<and> successful_invocations (trace s) = iteration s
   \<and> length (iteration_response s) = iteration s
   \<and> Print MaxIterationsReached \<notin> set (trace s)"

text \<open>
  Every invocation of an email tool recorded in a trace is addressed to the recipient of
  the session.
\<close>

definition addressed :: "session \<Rightarrow> event list \<Rightarrow> bool" where
  "addressed cfg tr \<longleftrightarrow>
     (\<forall>func_name arguments result.
        Invoke func_name arguments result \<in> set tr
        \<and> (func_name = ''email_ascii_image'' \<or> func_name = ''send_email_with_attachment'')
        \<longrightarrow> map_of arguments ''to_address'' = Some (PStr (recipient_email cfg)))"

section \<open>Concrete environments\<close>

text \<open>
  A small environment on which the model can be run: one existing file, a model that
  answers from a script (and times out when the script is exhausted), tools that answer
  with their name followed by \<open>()\<close> when called without arguments and by \<open>(...)\<close>
  otherwise, and a standard output that encodes every character.
\<close>

definition example_os :: os_path where
  "example_os =
     \<lparr>path_exists = (\<lambda>p. p = ''Assignment/out.png''),
      path_join = py_join ''/'',
      path_abspath = (\<lambda>p. ''/work/'' @ p)\<rparr>"

definition scripted_env :: "string list \<Rightarrow> environment" where
  "scripted_env replies =
     \<lparr>generate_with_timeout =
        (\<lambda>tr prompt.
           if generation_requests tr < length replies
           then Returned (Some (replies ! generation_requests tr))
           else Raised TimeoutError),
      call_tool =
        (\<lambda>tr func_name arguments.
           Returned (ContentList
             [Some (func_name @ (if arguments = [] then ''()'' else ''(...)''))])),
      os_path_at = (\<lambda>tr. example_os),
      stdout_encodes = (\<lambda>c. True)\<rparr>"

text \<open>
  A second one, where the tools answer from a script as well (the next call raises when
  the script is exhausted) and the standard output encodes ASCII only.
\<close>

definition scripted_tools_env :: "string list \<Rightarrow> tool_result outcome list \<Rightarrow> environment" where
  "scripted_tools_env replies results =
     \<lparr>generate_with_timeout =
        (\<lambda>tr prompt.
           if generation_requests tr < length replies
           then Returned (Some (replies ! generation_requests tr))
           else Raised TimeoutError),
      call_tool =
        (\<lambda>tr func_name arguments.
           if tool_invocations tr < length results
           then results ! tool_invocations tr
           else Raised (OtherError ''no answer'')),
      os_path_at = (\<lambda>tr. example_os),
      stdout_encodes = (\<lambda>c. False)\<rparr>"

definition example_session :: session where
  "example_session =
     \<lparr>system_prompt = ''You are an agent.'', user_input = ''Hi'',
      recipient_email = ''a@b.com''\<rparr>"

section \<open>Splitting and joining\<close>

lemma last_dropWhile: "dropWhile P xs \<noteq> [] \<Longrightarrow> last (dropWhile P xs) = last xs"
  by (induction xs) (auto split: if_splits)

lemma strip_trimmed:
  assumes "strip s \<noteq> []"
  shows "\<not> isspace (hd (strip s)) \<and> \<not> isspace (last (strip s))"
proof -
  define lead where "lead = dropWhile isspace s"
  define core where "core = dropWhile isspace (rev lead)"
  have strip: "strip s = rev core"
    by (simp add: strip_def lead_def core_def)
  with assms have core: "core \<noteq> []"
    by simp
  then have lead: "lead \<noteq> []"
    by (auto simp: core_def)
  have "\<not> isspace (hd core)"
    using core unfolding core_def by (rule hd_dropWhile)
  moreover have "last core = last (rev lead)"
    using core unfolding core_def by (rule last_dropWhile)
  moreover have "\<not> isspace (hd lead)"
    using lead unfolding lead_def by (rule hd_dropWhile)
  ultimately show ?thesis
    using core lead by (simp add: strip hd_rev last_rev)
qed

lemma py_split_nonempty: "py_split sep s \<noteq> []"
  by (induction s) (auto split: list.splits)

lemma length_py_split: "length (py_split sep s) = Suc (count_list s sep)"
  by (induction s) (auto split: list.splits)

lemma py_split_no_sep: "f \<in> set (py_split sep s) \<Longrightarrow> sep \<notin> set f"
  by (induction s arbitrary: f) (auto split: list.splits if_splits)

lemma py_join_cons_char: "py_join sep ((c # f) # fs) = c # py_join sep (f # fs)"
  by (cases fs) simp_all

lemma py_join_split: "py_join [sep] (py_split sep s) = s"
proof (induction s)
  case Nil
  show ?case by simp
next
  case (Cons c cs)
  obtain f fs where split: "py_split sep cs = f # fs"
    using py_split_nonempty [of sep cs] by (cases "py_split sep cs") auto
  show ?case
  proof (cases "c = sep")
    case True
    with Cons split show ?thesis by simp
  next
    case False
    with Cons split show ?thesis by (simp add: py_join_cons_char)
  qed
qed

lemma py_split1_marker:
  "sep \<notin> set m \<Longrightarrow> py_split1 sep (m @ sep # rest) = [m, rest]"
proof -
  assume m: "sep \<notin> set m"
  have "dropWhile (\<lambda>c. c \<noteq> sep) (m @ sep # rest) = sep # rest"
    using m by (induction m) auto
  moreover have "takeWhile (\<lambda>c. c \<noteq> sep) (m @ sep # rest) = m"
    using m by (induction m) auto
  ultimately show ?thesis
    by (simp add: py_split1_def)
qed

lemma startswith_decompose: "startswith s p \<Longrightarrow> s = p @ drop (length p) s"
  unfolding startswith_def by (metis append_take_drop_id)

lemma parse_call:
  assumes "startswith line ''FUNCTION_CALL:''"
  shows "parse_directive line =
           (case map strip (py_split CHR ''|'' (drop 14 line)) of
              [] \<Rightarrow> Inl IndexError | func_name # params \<Rightarrow> Inr (Call func_name params))"
proof -
  define payload where "payload = drop (length ''FUNCTION_CALL:'') line"
  have line: "line = ''FUNCTION_CALL'' @ CHR '':'' # payload"
    using startswith_decompose [OF assms] by (simp add: payload_def)
  have "py_split1 CHR '':'' line = [''FUNCTION_CALL'', payload]"
    unfolding line by (rule py_split1_marker) simp
  moreover have "drop 14 line = payload"
    unfolding line by simp
  ultimately show ?thesis
    using assms by (simp add: parse_directive_def)
qed

section \<open>The directive parser\<close>

text \<open>
  Claim C5. A line that starts with \<open>FUNCTION_CALL:\<close> always parses to a call. Its payload
  is everything after the first colon, that is after the fourteen characters of the
  marker. The function name followed by the parameters are the stripped fields of the
  payload, in order, where the fields are the pieces between the pipes: joined by pipes
  they give the payload back and none contains a pipe. So there are exactly as many
  parameters as pipes in the payload, and none when it has no pipe. A stripped field
  neither starts nor ends with whitespace. The parser is a
  function of the line alone, so parsing the line again gives the same directive.
\<close>

theorem C5_function_call_fields:
  assumes "startswith line ''FUNCTION_CALL:''"
  shows "\<exists>func_name params.
           parse_directive line = Inr (Call func_name params)
         \<and> func_name # params = map strip (py_split CHR ''|'' (drop 14 line))
         \<and> py_join ''|'' (py_split CHR ''|'' (drop 14 line)) = drop 14 line
         \<and> (\<forall>f \<in> set (py_split CHR ''|'' (drop 14 line)). CHR ''|'' \<notin> set f)
         \<and> length params = count_list (drop 14 line) CHR ''|''
         \<and> (\<forall>p \<in> set (func_name # params).
               p \<noteq> [] \<longrightarrow> \<not> isspace (hd p) \<and> \<not> isspace (last p))"
proof -
  let ?fields = "py_split CHR ''|'' (drop 14 line)"
  obtain f fs where fields: "?fields = f # fs"
    using py_split_nonempty [of "CHR ''|''" "drop 14 line"] by (cases ?fields) auto
  have "parse_directive line = Inr (Call (strip f) (map strip fs))"
    using parse_call [OF assms] fields by simp
  moreover have "strip f # map strip fs = map strip ?fields"
    using fields by simp
  moreover have "py_join ''|'' ?fields = drop 14 line"
    by (rule py_join_split)
  moreover have "\<forall>f \<in> set ?fields. CHR ''|'' \<notin> set f"
    using py_split_no_sep by blast
  moreover have "length (map strip fs) = count_list (drop 14 line) CHR ''|''"
    using length_py_split [of "CHR ''|''" "drop 14 line"] fields by simp
  moreover have "\<forall>p \<in> set (strip f # map strip fs).
      p \<noteq> [] \<longrightarrow> \<not> isspace (hd p) \<and> \<not> isspace (last p)"
    using strip_trimmed by auto
  ultimately show ?thesis
    by (intro exI [of _ "strip f"] exI [of _ "map strip fs"] conjI)
qed

theorem C5_function_call_fields_witness:
  "startswith ''FUNCTION_CALL: open_paint'' ''FUNCTION_CALL:''
   \<and> parse_directive ''FUNCTION_CALL: open_paint'' = Inr (Call ''open_paint'' [])
   \<and> count_list (drop 14 ''FUNCTION_CALL: open_paint'') CHR ''|'' = 0"
proof -
  have start: "startswith ''FUNCTION_CALL: open_paint'' ''FUNCTION_CALL:''"
    by (simp add: startswith_def)
  have fields: "map strip (py_split CHR ''|'' (drop 14 ''FUNCTION_CALL: open_paint'')) = [''open_paint'']"
    by (simp add: strip_def isspace_def)
  from C5_function_call_fields [OF start] fields
  have "parse_directive ''FUNCTION_CALL: open_paint'' = Inr (Call ''open_paint'' [])"
    by auto
  with start show ?thesis by simp
qed

section \<open>The argument mapper\<close>

text \<open>
  Claim C3 does not hold for \<open>ascii_exp_sum\<close>: with the user's input \<open>Hi\<close> and a first
  parameter \<open>Bye\<close>, the mapped \<open>input_string\<close> is \<open>Hi\<close>.
\<close>

theorem C3_counterexample:
  "map_arguments example_os ''Hi'' ''a@b.com'' ''ascii_exp_sum'' [''Bye'']
     = Inr [(''input_string'', PStr ''Hi'')]
   \<and> map_arguments example_os ''Hi'' ''a@b.com'' ''ascii_exp_sum'' [''Bye'']
     \<noteq> Inr [(''input_string'', PStr ''Bye'')]"
  by (simp add: map_arguments_def)

text \<open>
  Claim C3, amended. With at least one parameter, \<open>add_text_in_paint\<close> binds the first
  parameter, unchanged, to \<open>text\<close> and \<open>save_paint_file\<close> binds it to \<open>filename\<close>.
  \<open>ascii_exp_sum\<close> binds the string entered by the user to \<open>input_string\<close>, whatever the
  parameters are (line 259).
\<close>

theorem C3_single_text_argument:
  "map_arguments os input recipient ''add_text_in_paint'' (p # ps)
     = Inr [(''text'', PStr p)]
   \<and> map_arguments os input recipient ''save_paint_file'' (p # ps)
     = Inr [(''filename'', PStr p)]
   \<and> map_arguments os input recipient ''ascii_exp_sum'' params
     = Inr [(''input_string'', PStr input)]"
  by (simp add: map_arguments_def)



section \<open>One pass of the loop\<close>

lemma loop_body_Continue:
  assumes "loop_body env cfg s = Continue s'"
  shows "\<exists>func_name arguments result text.
           s' = s\<lparr>iteration_response :=
                     iteration_response s @ [transcript_entry (iteration s) func_name text],
                   query := next_query
                     (iteration_response s @ [transcript_entry (iteration s) func_name text]),
                   trace := trace s
                     @ [Generate (prompt_of cfg s),
                        Invoke func_name arguments (Returned result)]\<rparr>"
  using assms
  by (auto simp: loop_body_def fail_def Let_def
        split: outcome.splits option.splits sum.splits directive.splits if_splits)

lemma loop_body_Break:
  assumes "loop_body env cfg s = Break s'"
  shows "breaks cfg s s'"
  using assms
  by (auto simp: loop_body_def fail_def Let_def
        split: outcome.splits option.splits sum.splits directive.splits if_splits
        intro: breaks.intros)

lemma main_loop_stop: "\<not> iteration s < max_iterations \<Longrightarrow> main_loop env cfg s = s"
  by (subst main_loop.simps) simp

lemma main_loop_Break:
  "iteration s < max_iterations \<Longrightarrow> loop_body env cfg s = Break s' \<Longrightarrow> main_loop env cfg s = s'"
  by (subst main_loop.simps) simp

lemma main_loop_Continue:
  "iteration s < max_iterations \<Longrightarrow> loop_body env cfg s = Continue s' \<Longrightarrow>
   main_loop env cfg s = main_loop env cfg (s'\<lparr>iteration := iteration s' + 1\<rparr>)"
  by (subst main_loop.simps) simp

lemma loop_heads_stop: "\<not> iteration s < max_iterations \<Longrightarrow> loop_heads env cfg s = [s]"
  by (subst loop_heads.simps) simp

lemma loop_heads_Break:
  "iteration s < max_iterations \<Longrightarrow> loop_body env cfg s = Break s' \<Longrightarrow> loop_heads env cfg s = [s]"
  by (subst loop_heads.simps) simp

lemma loop_heads_Continue:
  "iteration s < max_iterations \<Longrightarrow> loop_body env cfg s = Continue s' \<Longrightarrow>
   loop_heads env cfg s = s # loop_heads env cfg (s'\<lparr>iteration := iteration s' + 1\<rparr>)"
  by (subst loop_heads.simps) simp

lemma run_from_Break:
  assumes "iteration s < max_iterations" and "loop_body env cfg s = Break s'"
  shows "run_from env cfg s = s'"
proof -
  have "iteration s' = iteration s"
    using loop_body_Break [OF assms(2)] by cases auto
  with assms show ?thesis
    by (simp add: run_from_def main_loop_Break report_max_def)
qed

section \<open>The loop\<close>

lemma counted_initial: "counted (initial_state cfg)"
  by (simp add: counted_def initial_state_def generation_requests_def tool_invocations_def
        successful_invocations_def)

lemma counted_Continue:
  assumes "counted s" and "loop_body env cfg s = Continue s'"
  shows "counted (s'\<lparr>iteration := iteration s' + 1\<rparr>)"
  using assms(1) loop_body_Continue [OF assms(2)]
  by (auto simp: counted_def generation_requests_def tool_invocations_def
        successful_invocations_def)

text \<open>
  What a pass that breaks leaves behind, when it started from a state in which everything
  was counted: the counter is unchanged, and the transcript and the successful invocations
  have each gained at most one.
\<close>

lemma Break_counts:
  assumes "counted s" and "loop_body env cfg s = Break s'"
  shows "iteration s' = iteration s
       \<and> generation_requests (trace s') = iteration s + 1
       \<and> tool_invocations (trace s') \<le> iteration s + 1
       \<and> iteration s \<le> length (iteration_response s')
       \<and> length (iteration_response s') \<le> successful_invocations (trace s')
       \<and> successful_invocations (trace s') \<le> length (iteration_response s') + 1
       \<and> length (iteration_response s') \<le> iteration s + 1
       \<and> (iteration s < length (iteration_response s') \<longrightarrow>
            last (trace s') = Print (IterationError (iteration s + 1) UnicodeEncodeError))
       \<and> Print MaxIterationsReached \<notin> set (trace s')"
  using loop_body_Break [OF assms(2)] assms(1)
  by cases
    (auto simp: counted_def generation_requests_def tool_invocations_def
       successful_invocations_def)

lemma main_loop_post:
  assumes "counted s"
  shows "Print MaxIterationsReached \<notin> set (trace (main_loop env cfg s))
       \<and> (iteration s \<le> max_iterations \<longrightarrow> iteration (main_loop env cfg s) \<le> max_iterations)
       \<and> iteration (main_loop env cfg s) \<le> length (iteration_response (main_loop env cfg s))
       \<and> length (iteration_response (main_loop env cfg s))
           \<le> successful_invocations (trace (main_loop env cfg s))
       \<and> successful_invocations (trace (main_loop env cfg s))
           \<le> length (iteration_response (main_loop env cfg s)) + 1
       \<and> (if iteration (main_loop env cfg s) < max_iterations
          then generation_requests (trace (main_loop env cfg s))
                 = iteration (main_loop env cfg s) + 1
             \<and> tool_invocations (trace (main_loop env cfg s))
                 \<le> iteration (main_loop env cfg s) + 1
             \<and> length (iteration_response (main_loop env cfg s))
                 \<le> iteration (main_loop env cfg s) + 1
             \<and> (iteration (main_loop env cfg s)
                   < length (iteration_response (main_loop env cfg s)) \<longrightarrow>
                 last (trace (main_loop env cfg s))
                   = Print (IterationError (iteration (main_loop env cfg s) + 1)
                       UnicodeEncodeError))
          else counted (main_loop env cfg s))"
  using assms
proof (induction env cfg s rule: main_loop.induct)
  case (1 env cfg s)
  show ?case
  proof (cases "iteration s < max_iterations")
    case False
    with "1.prems" show ?thesis
      by (simp add: main_loop_stop counted_def)
  next
    case running: True
    show ?thesis
    proof (cases "loop_body env cfg s")
      case (Break s')
      from running Break have "main_loop env cfg s = s'"
        by (rule main_loop_Break)
      with Break_counts [OF "1.prems" Break] running show ?thesis
        by simp
    next
      case (Continue s')
      define nxt where "nxt = s'\<lparr>iteration := iteration s' + 1\<rparr>"
      have next_counted: "counted nxt"
        unfolding nxt_def using "1.prems" Continue by (rule counted_Continue)
      have unfold: "main_loop env cfg s = main_loop env cfg nxt"
        unfolding nxt_def using running Continue by (rule main_loop_Continue)
      have "iteration nxt = iteration s + 1"
        unfolding nxt_def using loop_body_Continue [OF Continue] by auto
      with running have "iteration nxt \<le> max_iterations"
        by simp
      with "1.IH" [OF running Continue next_counted [unfolded nxt_def]] show ?thesis
        unfolding unfold nxt_def by blast
    qed
  qed
qed

text \<open>
  Claim C2 does not hold as stated when the print of line 353 raises. Here the standard
  output encodes ASCII only and the tenth tool result holds another character: the tenth
  entry is accumulated, the counter stays at nine and no notice is printed.
\<close>

theorem C2_counterexample:
  "length (iteration_response (run_session
       (scripted_tools_env (replicate 10 ''FUNCTION_CALL: open_paint'')
          (replicate 9 (Returned (ContentList [Some ''done'']))
             @ [Returned (ContentList [Some [CHR 0xE9]])]))
       example_session)) = max_iterations
   \<and> iteration (run_session
       (scripted_tools_env (replicate 10 ''FUNCTION_CALL: open_paint'')
          (replicate 9 (Returned (ContentList [Some ''done'']))
             @ [Returned (ContentList [Some [CHR 0xE9]])]))
       example_session) = 9
   \<and> Print MaxIterationsReached \<notin> set (trace (run_session
       (scripted_tools_env (replicate 10 ''FUNCTION_CALL: open_paint'')
          (replicate 9 (Returned (ContentList [Some ''done'']))
             @ [Returned (ContentList [Some [CHR 0xE9]])]))
       example_session))"
proof -
  let ?env = "scripted_tools_env (replicate 10 ''FUNCTION_CALL: open_paint'')
      (replicate 9 (Returned (ContentList [Some ''done'']))
         @ [Returned (ContentList [Some [CHR 0xE9]])])"
  have entries: "length (iteration_response (run_session ?env example_session)) = max_iterations"
    by code_simp
  have counter: "iteration (run_session ?env example_session) = 9"
    by code_simp
  have "iteration (main_loop ?env example_session (initial_state example_session)) = 9"
    using counter
    by (simp add: run_session_def run_from_def report_max_def split: if_splits)
  then have "run_session ?env example_session
      = main_loop ?env example_session (initial_state example_session)"
    by (simp add: run_session_def run_from_def report_max_def max_iterations_def)
  with main_loop_post [where s = "initial_state example_session" and env = ?env
      and cfg = example_session, OF counted_initial]
  have "Print MaxIterationsReached \<notin> set (trace (run_session ?env example_session))"
    by simp
  with entries counter show ?thesis
    by simp
qed

text \<open>
  Claim C2, amended. In every session, whatever the model and the tools answer, there are
  at most \<open>max_iterations\<close> (ten) generation requests and at most as many tool
  invocations, and the counter never exceeds \<open>max_iterations\<close>. The counter is
  incremented once for each pass that runs to its end, so it ends equal to the number of
  transcript entries or one below it, and one below it only when the last pass accumulated
  its entry and then raised while printing the new query. When the counter has reached
  \<open>max_iterations\<close>, that many entries were accumulated, exactly that many generation
  requests were made and the last thing the session does is print the maximum-iterations
  notice; a session whose counter stays below never prints it.
\<close>

theorem C2_iteration_bound:
  "max_iterations = 10
   \<and> generation_requests (trace (run_session env cfg)) \<le> max_iterations
   \<and> tool_invocations (trace (run_session env cfg)) \<le> max_iterations
   \<and> iteration (run_session env cfg) \<le> max_iterations
   \<and> iteration (run_session env cfg) \<le> length (iteration_response (run_session env cfg))
   \<and> length (iteration_response (run_session env cfg)) \<le> iteration (run_session env cfg) + 1
   \<and> (iteration (run_session env cfg) = max_iterations \<longrightarrow>
         length (iteration_response (run_session env cfg)) = max_iterations
       \<and> generation_requests (trace (run_session env cfg)) = max_iterations
       \<and> tool_invocations (trace (run_session env cfg)) = max_iterations
       \<and> last (trace (run_session env cfg)) = Print MaxIterationsReached)
   \<and> (iteration (run_session env cfg) < max_iterations \<longrightarrow>
         Print MaxIterationsReached \<notin> set (trace (run_session env cfg)))
   \<and> (iteration (run_session env cfg) < length (iteration_response (run_session env cfg)) \<longrightarrow>
         last (trace (run_session env cfg))
           = Print (IterationError (iteration (run_session env cfg) + 1) UnicodeEncodeError))"
proof -
  define f where "f = main_loop env cfg (initial_state cfg)"
  have start: "iteration (initial_state cfg) \<le> max_iterations"
    by (simp add: initial_state_def)
  note post = main_loop_post [where s = "initial_state cfg" and env = env and cfg = cfg,
      OF counted_initial, folded f_def]
  have clean: "Print MaxIterationsReached \<notin> set (trace f)"
    and bound: "iteration f \<le> max_iterations"
    and lower: "iteration f \<le> length (iteration_response f)"
    using post start by simp_all
  have broke: "generation_requests (trace f) = iteration f + 1
      \<and> tool_invocations (trace f) \<le> iteration f + 1
      \<and> length (iteration_response f) \<le> iteration f + 1
      \<and> (iteration f < length (iteration_response f) \<longrightarrow>
           last (trace f) = Print (IterationError (iteration f + 1) UnicodeEncodeError))"
    if "iteration f < max_iterations"
    using post that by simp
  have full: "counted f" if "\<not> iteration f < max_iterations"
    using post that by simp
  have run: "run_session env cfg = report_max f"
    by (simp add: run_session_def run_from_def f_def)
  show ?thesis
  proof (cases "iteration f < max_iterations")
    case True
    then have "run_session env cfg = f"
      by (simp add: run report_max_def)
    with True lower clean broke [OF True] show ?thesis
      by (simp add: max_iterations_def)
  next
    case False
    with bound have at_max: "iteration f = max_iterations"
      by simp
    have "run_session env cfg = f\<lparr>trace := trace f @ [Print MaxIterationsReached]\<rparr>"
      using False by (simp add: run report_max_def)
    with at_max full [OF False] show ?thesis
      by (simp add: counted_def generation_requests_def tool_invocations_def max_iterations_def)
  qed
qed

theorem C2_iteration_bound_witness:
  "iteration (run_session (scripted_env (replicate 10 ''FUNCTION_CALL: open_paint''))
       example_session) = max_iterations
   \<and> generation_requests (trace
       (run_session (scripted_env (replicate 10 ''FUNCTION_CALL: open_paint'')) example_session))
     = max_iterations
   \<and> last (trace
       (run_session (scripted_env (replicate 10 ''FUNCTION_CALL: open_paint'')) example_session))
     = Print MaxIterationsReached
   \<and> iteration (run_session (scripted_env [''FINAL_ANSWER: done'']) example_session)
     < max_iterations
   \<and> Print MaxIterationsReached \<notin> set (trace
       (run_session (scripted_env [''FINAL_ANSWER: done'']) example_session))
   \<and> iteration (run_session
         (scripted_tools_env [''FUNCTION_CALL: open_paint'']
            [Returned (ContentList [Some [CHR 0xE9]])]) example_session)
     < length (iteration_response (run_session
         (scripted_tools_env [''FUNCTION_CALL: open_paint'']
            [Returned (ContentList [Some [CHR 0xE9]])]) example_session))
   \<and> last (trace (run_session
         (scripted_tools_env [''FUNCTION_CALL: open_paint'']
            [Returned (ContentList [Some [CHR 0xE9]])]) example_session))
     = Print (IterationError (iteration (run_session
         (scripted_tools_env [''FUNCTION_CALL: open_paint'']
            [Returned (ContentList [Some [CHR 0xE9]])]) example_session) + 1)
         UnicodeEncodeError)"
proof -
  have full: "iteration (run_session (scripted_env (replicate 10 ''FUNCTION_CALL: open_paint''))
       example_session) = max_iterations"
    by code_simp
  have early: "iteration (run_session (scripted_env [''FINAL_ANSWER: done'']) example_session)
     < max_iterations"
    by code_simp
  have short: "iteration (run_session
         (scripted_tools_env [''FUNCTION_CALL: open_paint'']
            [Returned (ContentList [Some [CHR 0xE9]])]) example_session)
     < length (iteration_response (run_session
         (scripted_tools_env [''FUNCTION_CALL: open_paint'']
            [Returned (ContentList [Some [CHR 0xE9]])]) example_session))"
    by code_simp
  from full early short
    C2_iteration_bound [of "scripted_env (replicate 10 ''FUNCTION_CALL: open_paint'')"
      example_session]
    C2_iteration_bound [of "scripted_env [''FINAL_ANSWER: done'']" example_session]
    C2_iteration_bound [of "scripted_tools_env [''FUNCTION_CALL: open_paint'']
            [Returned (ContentList [Some [CHR 0xE9]])]" example_session]
  show ?thesis
    by blast
qed

section \<open>How a pass ends the session\<close>


lemma strip_plain:
  "strip ''I am thinking...'' = ''I am thinking...''"
  "strip ''   '' = ''''"
  "strip ''FINAL_ANSWER: done'' = ''FINAL_ANSWER: done''"
  by (simp_all add: strip_def isspace_def)

lemma example_running: "iteration (initial_state example_session) < max_iterations"
  by (simp add: initial_state_def max_iterations_def)

lemma scripted_first_reply:
  "generate_with_timeout (scripted_env (reply # replies)) (trace (initial_state cfg)) prompt
     = Returned (Some reply)"
  by (simp add: scripted_env_def initial_state_def generation_requests_def)

text \<open>
  Claim C4. When the stripped response starts with neither marker (the empty response
  included), it is classified as malformed and the rest of the session consists of
  printing the unexpected-format message: from that point the trace gains the generation
  request already made and that message, nothing else. No tool is invoked, no further
  generation is requested, and the response is not parsed again.
\<close>

theorem C4_malformed_aborts:
  assumes running: "iteration s < max_iterations"
      and reply: "generate_with_timeout env (trace s) (prompt_of cfg s) = Returned (Some text)"
      and no_call: "\<not> startswith (strip text) ''FUNCTION_CALL:''"
      and no_final: "\<not> startswith (strip text) ''FINAL_ANSWER:''"
  shows "parse_directive (strip text) = Inr (Malformed (strip text))
       \<and> run_from env cfg s
           = s\<lparr>trace := trace s
                 @ [Generate (prompt_of cfg s), Print (UnexpectedFormat (strip text))]\<rparr>
       \<and> tool_invocations (trace (run_from env cfg s)) = tool_invocations (trace s)
       \<and> generation_requests (trace (run_from env cfg s))
           = generation_requests (trace s) + 1"
proof -
  have parsed: "parse_directive (strip text) = Inr (Malformed (strip text))"
    using no_call no_final by (simp add: parse_directive_def)
  with reply have "loop_body env cfg s
      = Break (s\<lparr>trace := trace s
                 @ [Generate (prompt_of cfg s), Print (UnexpectedFormat (strip text))]\<rparr>)"
    by (simp add: loop_body_def)
  with running parsed show ?thesis
    by (simp add: run_from_Break tool_invocations_def generation_requests_def)
qed

theorem C4_malformed_aborts_witness:
  "trace (run_session (scripted_env [''I am thinking...'', ''FUNCTION_CALL: open_paint''])
       example_session)
     = [Generate (prompt_of example_session (initial_state example_session)),
        Print (UnexpectedFormat ''I am thinking...'')]
   \<and> trace (run_session (scripted_env [''   '']) example_session)
     = [Generate (prompt_of example_session (initial_state example_session)),
        Print (UnexpectedFormat '''')]"
proof -
  let ?s = "initial_state example_session"
  have "\<not> startswith (strip ''I am thinking...'') ''FUNCTION_CALL:''"
    and "\<not> startswith (strip ''I am thinking...'') ''FINAL_ANSWER:''"
    and "\<not> startswith (strip ''   '') ''FUNCTION_CALL:''"
    and "\<not> startswith (strip ''   '') ''FINAL_ANSWER:''"
    unfolding strip_plain by (simp_all add: startswith_def)
  then show ?thesis
    using C4_malformed_aborts [OF example_running scripted_first_reply,
        of "''I am thinking...''" "[''FUNCTION_CALL: open_paint'']"]
      C4_malformed_aborts [OF example_running scripted_first_reply, of "''   ''" "[]"]
    by (simp add: run_session_def strip_plain initial_state_def)
qed



lemma draw_rectangle_mapping:
  "map_arguments os input recipient ''draw_rectangle'' (a # b # c # d # rest) =
     (case int_of_param a of Inl e \<Rightarrow> Inl e | Inr x1 \<Rightarrow>
      case int_of_param b of Inl e \<Rightarrow> Inl e | Inr y1 \<Rightarrow>
      case int_of_param c of Inl e \<Rightarrow> Inl e | Inr x2 \<Rightarrow>
      case int_of_param d of Inl e \<Rightarrow> Inl e | Inr y2 \<Rightarrow>
        Inr [(''x1'', PInt x1), (''y1'', PInt y1), (''x2'', PInt x2), (''y2'', PInt y2)])"
  by (simp add: map_arguments_def numeral_2_eq_2 numeral_3_eq_3 split: sum.splits)

lemma mapping_error_aborts:
  assumes running: "iteration s < max_iterations"
      and reply: "generate_with_timeout env (trace s) (prompt_of cfg s) = Returned (Some text)"
      and parsed: "parse_directive (strip text) = Inr (Call func_name params)"
      and mapped: "map_arguments (os_path_at env (trace s @ [Generate (prompt_of cfg s)]))
                     (user_input cfg) (recipient_email cfg) func_name params = Inl e"
  shows "run_from env cfg s
           = s\<lparr>trace := trace s
                 @ [Generate (prompt_of cfg s), Print (IterationError (iteration s + 1) e)]\<rparr>"
proof -
  have "loop_body env cfg s
      = Break (s\<lparr>trace := trace s
                 @ [Generate (prompt_of cfg s), Print (IterationError (iteration s + 1) e)]\<rparr>)"
    using reply parsed mapped by (simp add: loop_body_def fail_def)
  with running show ?thesis
    by (simp add: run_from_Break)
qed

lemma py_int_examples:
  "py_int ''476'' = Some 476" "py_int ''274'' = Some 274"
  "py_int ''676'' = Some 676" "py_int ''374'' = Some 374"
  "py_int ''abc'' = None"
  by (simp_all add: py_int_def strip_def isspace_def isdigit_def digit_value_def)

text \<open>
  Claim C9. For \<open>draw_rectangle\<close> with four parameters or more: when the first four
  are integers, they become \<open>x1\<close>, \<open>y1\<close>, \<open>x2\<close> and \<open>y2\<close>, in this order. When one of
  them is not, the mapping raises \<open>ValueError\<close>, and a pass that received this call ends
  the session: the error is printed with the number of the pass, no tool is invoked and
  nothing is tried again.
\<close>

theorem C9_draw_rectangle_integers:
  assumes four: "params = a # b # c # d # rest"
  shows "(py_int a = Some x1 \<and> py_int b = Some y1 \<and> py_int c = Some x2 \<and> py_int d = Some y2
            \<longrightarrow> map_arguments os input recipient ''draw_rectangle'' params
                  = Inr [(''x1'', PInt x1), (''y1'', PInt y1), (''x2'', PInt x2), (''y2'', PInt y2)])
       \<and> ((py_int a = None \<or> py_int b = None \<or> py_int c = None \<or> py_int d = None)
            \<and> iteration s < max_iterations
            \<and> generate_with_timeout env (trace s) (prompt_of cfg s) = Returned (Some text)
            \<and> parse_directive (strip text) = Inr (Call ''draw_rectangle'' params)
            \<longrightarrow> (\<exists>literal.
                    map_arguments os input recipient ''draw_rectangle'' params
                      = Inl (ValueError literal)
                  \<and> run_from env cfg s
                      = s\<lparr>trace := trace s
                            @ [Generate (prompt_of cfg s),
                               Print (IterationError (iteration s + 1) (ValueError literal))]\<rparr>
                  \<and> tool_invocations (trace (run_from env cfg s))
                      = tool_invocations (trace s)))"
proof (intro conjI impI)
  assume "py_int a = Some x1 \<and> py_int b = Some y1 \<and> py_int c = Some x2 \<and> py_int d = Some y2"
  then show "map_arguments os input recipient ''draw_rectangle'' params
      = Inr [(''x1'', PInt x1), (''y1'', PInt y1), (''x2'', PInt x2), (''y2'', PInt y2)]"
    unfolding four draw_rectangle_mapping by (simp add: int_of_param_def)
next
  assume fails: "(py_int a = None \<or> py_int b = None \<or> py_int c = None \<or> py_int d = None)
      \<and> iteration s < max_iterations
      \<and> generate_with_timeout env (trace s) (prompt_of cfg s) = Returned (Some text)
      \<and> parse_directive (strip text) = Inr (Call ''draw_rectangle'' params)"
  have "\<exists>literal. \<forall>os input recipient.
          map_arguments os input recipient ''draw_rectangle'' params = Inl (ValueError literal)"
    using fails unfolding four draw_rectangle_mapping
    by (auto simp: int_of_param_def split: option.splits)
  then obtain literal where raised: "\<And>os input recipient.
      map_arguments os input recipient ''draw_rectangle'' params = Inl (ValueError literal)"
    by blast
  have "run_from env cfg s
      = s\<lparr>trace := trace s
            @ [Generate (prompt_of cfg s),
               Print (IterationError (iteration s + 1) (ValueError literal))]\<rparr>"
    using fails raised by (intro mapping_error_aborts) auto
  then show "\<exists>literal.
      map_arguments os input recipient ''draw_rectangle'' params = Inl (ValueError literal)
    \<and> run_from env cfg s
        = s\<lparr>trace := trace s
              @ [Generate (prompt_of cfg s),
                 Print (IterationError (iteration s + 1) (ValueError literal))]\<rparr>
    \<and> tool_invocations (trace (run_from env cfg s)) = tool_invocations (trace s)"
    using raised by (auto simp: tool_invocations_def)
qed

theorem C9_draw_rectangle_integers_witness:
  "map_arguments example_os ''Hi'' ''a@b.com'' ''draw_rectangle'' [''476'', ''274'', ''676'', ''374'']
     = Inr [(''x1'', PInt 476), (''y1'', PInt 274), (''x2'', PInt 676), (''y2'', PInt 374)]
   \<and> trace (run_session
        (scripted_env [''FUNCTION_CALL: draw_rectangle|476|abc|676|374'', ''FINAL_ANSWER: done''])
        example_session)
     = [Generate (prompt_of example_session (initial_state example_session)),
        Print (IterationError 1 (ValueError ''abc''))]"
proof -
  let ?reply = "''FUNCTION_CALL: draw_rectangle|476|abc|676|374''"
  have parsed: "parse_directive (strip ?reply)
      = Inr (Call ''draw_rectangle'' [''476'', ''abc'', ''676'', ''374''])"
    by code_simp
  have good: "map_arguments example_os ''Hi'' ''a@b.com'' ''draw_rectangle''
       [''476'', ''274'', ''676'', ''374'']
     = Inr [(''x1'', PInt 476), (''y1'', PInt 274), (''x2'', PInt 676), (''y2'', PInt 374)]"
    using C9_draw_rectangle_integers [of "[''476'', ''274'', ''676'', ''374'']"
        "''476''" "''274''" "''676''" "''374''" "[]" 476 274 676 374 example_os "''Hi''" "''a@b.com''"]
    by (simp add: py_int_examples)
  have given: "(py_int ''476'' = None \<or> py_int ''abc'' = None \<or> py_int ''676'' = None
        \<or> py_int ''374'' = None)
      \<and> iteration (initial_state example_session) < max_iterations
      \<and> generate_with_timeout (scripted_env [?reply, ''FINAL_ANSWER: done''])
            (trace (initial_state example_session))
            (prompt_of example_session (initial_state example_session))
          = Returned (Some ?reply)
      \<and> parse_directive (strip ?reply)
          = Inr (Call ''draw_rectangle'' [''476'', ''abc'', ''676'', ''374''])"
    using example_running scripted_first_reply parsed by (simp add: py_int_examples)
  have "\<exists>literal.
      map_arguments example_os ''Hi'' ''a@b.com'' ''draw_rectangle'' [''476'', ''abc'', ''676'', ''374'']
        = Inl (ValueError literal)
      \<and> run_from (scripted_env [?reply, ''FINAL_ANSWER: done'']) example_session
          (initial_state example_session)
        = (initial_state example_session)\<lparr>trace := trace (initial_state example_session)
            @ [Generate (prompt_of example_session (initial_state example_session)),
               Print (IterationError (iteration (initial_state example_session) + 1)
                 (ValueError literal))]\<rparr>"
    using C9_draw_rectangle_integers [of "[''476'', ''abc'', ''676'', ''374'']"
        "''476''" "''abc''" "''676''" "''374''" "[]" 0 0 0 0 example_os "''Hi''" "''a@b.com''"
        "initial_state example_session" "scripted_env [?reply, ''FINAL_ANSWER: done'']"
        example_session ?reply]
      given
    by blast
  moreover have "map_arguments example_os ''Hi'' ''a@b.com'' ''draw_rectangle''
      [''476'', ''abc'', ''676'', ''374''] = Inl (ValueError ''abc'')"
    by (simp add: draw_rectangle_mapping int_of_param_def py_int_examples)
  ultimately have "trace (run_session (scripted_env [?reply, ''FINAL_ANSWER: done''])
        example_session)
     = [Generate (prompt_of example_session (initial_state example_session)),
        Print (IterationError 1 (ValueError ''abc''))]"
    by (auto simp: run_session_def initial_state_def)
  with good show ?thesis
    by simp
qed

section \<open>Invocations and the transcript\<close>

lemma main_loop_trace: "\<exists>later. trace (main_loop env cfg s) = trace s @ later"
proof (induction env cfg s rule: main_loop.induct)
  case (1 env cfg s)
  show ?case
  proof (cases "iteration s < max_iterations")
    case False
    then show ?thesis
      by (simp add: main_loop_stop)
  next
    case running: True
    show ?thesis
    proof (cases "loop_body env cfg s")
      case (Break s')
      with running have "main_loop env cfg s = s'"
        by (simp add: main_loop_Break)
      with loop_body_Break [OF Break] show ?thesis
        by cases auto
    next
      case (Continue s')
      define nxt where "nxt = s'\<lparr>iteration := iteration s' + 1\<rparr>"
      have "main_loop env cfg s = main_loop env cfg nxt"
        unfolding nxt_def using running Continue by (rule main_loop_Continue)
      moreover obtain later where "trace (main_loop env cfg nxt) = trace nxt @ later"
        using "1.IH" [OF running Continue] unfolding nxt_def by blast
      moreover obtain pass where "trace nxt = trace s @ pass"
        using loop_body_Continue [OF Continue] unfolding nxt_def by auto
      ultimately show ?thesis
        by simp
    qed
  qed
qed

lemma run_from_trace: "\<exists>later. trace (run_from env cfg s) = trace s @ later"
  using main_loop_trace [of env cfg s] by (auto simp: run_from_def report_max_def)

lemma run_from_Continue:
  assumes "iteration s < max_iterations" and "loop_body env cfg s = Continue s'"
  shows "\<exists>later. trace (run_from env cfg s) = trace s' @ later"
proof -
  have "run_from env cfg s = run_from env cfg (s'\<lparr>iteration := iteration s' + 1\<rparr>)"
    using assms by (simp add: run_from_def main_loop_Continue)
  with run_from_trace [of env cfg "s'\<lparr>iteration := iteration s' + 1\<rparr>"] show ?thesis
    by simp
qed

lemma empty_mapping_cases:
  "map_arguments os input recipient name ps = Inr [] \<longleftrightarrow>
     name \<notin> {''ascii_exp_sum'', ''open_paint'', ''draw_rectangle'', ''add_text_in_paint'',
              ''save_paint_file'', ''email_ascii_image'', ''send_email_with_attachment''}
   \<or> name = ''open_paint''
   \<or> (name = ''draw_rectangle'' \<and> length ps < 4)
   \<or> ((name = ''add_text_in_paint'' \<or> name = ''save_paint_file'') \<and> ps = [])"
  by (auto simp: map_arguments_def split: sum.splits)

text \<open>
  A pass that maps a call to the empty dictionary has nothing to print that could raise
  before the call, so it applies \<open>call_tool\<close> to the parsed name and the empty
  dictionary; whatever comes of it, the invocation stands in the trace of the pass.
\<close>

lemma empty_mapping_pass:
  assumes reply: "generate_with_timeout env (trace s) (prompt_of cfg s) = Returned (Some text)"
      and parsed: "parse_directive (strip text) = Inr (Call func_name params)"
      and mapped: "map_arguments (os_path_at env (trace s @ [Generate (prompt_of cfg s)]))
                     (user_input cfg) (recipient_email cfg) func_name params = Inr []"
  shows "\<exists>s' rest.
           (loop_body env cfg s = Break s' \<or> loop_body env cfg s = Continue s')
         \<and> trace s'
             = trace s
               @ [Generate (prompt_of cfg s),
                  Invoke func_name []
                    (call_tool env (trace s @ [Generate (prompt_of cfg s)]) func_name [])]
               @ rest"
proof -
  have "func_name \<noteq> ''send_email_with_attachment''"
    using mapped by (auto simp: map_arguments_def split: if_splits)
  then have "attachment_printed env (os_path_at env (trace s @ [Generate (prompt_of cfg s)]))
      func_name params"
    by (simp add: attachment_printed_def)
  moreover have "arguments_printed env []"
    by (simp add: arguments_printed_def)
  ultimately show ?thesis
    using reply parsed mapped
    by (auto simp: loop_body_def fail_def Let_def split: outcome.splits sum.splits)
qed

text \<open>
  Claim C10. When a pass parses a call whose arguments map to the empty dictionary, the
  remote call is made all the same: the trace of the session continues with the
  generation request of the pass and with the invocation of the parsed name with the empty
  dictionary, recorded with what \<open>call_tool\<close>, applied to this name and the empty
  dictionary, answered. The mapping is empty exactly for a name that is none of the seven
  known ones, for \<open>open_paint\<close>, for \<open>draw_rectangle\<close> with fewer than four parameters,
  and for \<open>add_text_in_paint\<close> and \<open>save_paint_file\<close> without parameters.
\<close>

theorem C10_empty_mapping_invoked:
  assumes running: "iteration s < max_iterations"
      and reply: "generate_with_timeout env (trace s) (prompt_of cfg s) = Returned (Some text)"
      and parsed: "parse_directive (strip text) = Inr (Call func_name params)"
      and mapped: "map_arguments (os_path_at env (trace s @ [Generate (prompt_of cfg s)]))
                     (user_input cfg) (recipient_email cfg) func_name params = Inr []"
  shows "(\<exists>later. trace (run_from env cfg s)
            = trace s
              @ [Generate (prompt_of cfg s),
                 Invoke func_name []
                   (call_tool env (trace s @ [Generate (prompt_of cfg s)]) func_name [])]
              @ later)
       \<and> (map_arguments os input recipient name ps = Inr [] \<longleftrightarrow>
            name \<notin> {''ascii_exp_sum'', ''open_paint'', ''draw_rectangle'', ''add_text_in_paint'',
                     ''save_paint_file'', ''email_ascii_image'', ''send_email_with_attachment''}
          \<or> name = ''open_paint''
          \<or> (name = ''draw_rectangle'' \<and> length ps < 4)
          \<or> ((name = ''add_text_in_paint'' \<or> name = ''save_paint_file'') \<and> ps = []))"
proof -
  let ?pass = "[Generate (prompt_of cfg s),
      Invoke func_name [] (call_tool env (trace s @ [Generate (prompt_of cfg s)]) func_name [])]"
  obtain s' rest where pass: "loop_body env cfg s = Break s' \<or> loop_body env cfg s = Continue s'"
    and recorded: "trace s' = trace s @ ?pass @ rest"
    using empty_mapping_pass [OF reply parsed mapped] by blast
  from pass have "\<exists>later. trace (run_from env cfg s) = trace s @ ?pass @ later"
  proof
    assume "loop_body env cfg s = Break s'"
    with running have "run_from env cfg s = s'"
      by (rule run_from_Break)
    with recorded show ?thesis
      by simp
  next
    assume "loop_body env cfg s = Continue s'"
    with running obtain later where "trace (run_from env cfg s) = trace s' @ later"
      using run_from_Continue by blast
    with recorded show ?thesis
      by simp
  qed
  then show ?thesis
    by (rule conjI [OF _ empty_mapping_cases])
qed

theorem C10_empty_mapping_invoked_witness:
  "\<exists>later. trace (run_session
       (scripted_env [''FUNCTION_CALL: fly_to_moon|now'', ''FINAL_ANSWER: done''])
       example_session)
     = Generate (prompt_of example_session (initial_state example_session))
       # Invoke ''fly_to_moon'' [] (Returned (ContentList [Some ''fly_to_moon()''])) # later"
proof -
  let ?reply = "''FUNCTION_CALL: fly_to_moon|now''"
  let ?env = "scripted_env [?reply, ''FINAL_ANSWER: done'']"
  let ?s = "initial_state example_session"
  have parsed: "parse_directive (strip ?reply) = Inr (Call ''fly_to_moon'' [''now''])"
    by code_simp
  have mapped: "map_arguments (os_path_at ?env (trace ?s @ [Generate (prompt_of example_session ?s)]))
      (user_input example_session) (recipient_email example_session) ''fly_to_moon'' [''now'']
      = Inr []"
    by (simp add: map_arguments_def)
  have "call_tool ?env (trace ?s @ [Generate (prompt_of example_session ?s)]) ''fly_to_moon'' []
      = Returned (ContentList [Some ''fly_to_moon()''])"
    by (simp add: scripted_env_def)
  with C10_empty_mapping_invoked [OF example_running scripted_first_reply parsed mapped]
  show ?thesis
    by (simp add: run_session_def initial_state_def)
qed

lemma loop_heads_first: "\<exists>rest. loop_heads env cfg s = s # rest"
  by (subst loop_heads.simps) (simp split: step.splits)

lemma loop_heads_counted:
  assumes "counted s"
  shows "\<forall>h \<in> set (loop_heads env cfg s). counted h"
  using assms
proof (induction env cfg s rule: loop_heads.induct)
  case (1 env cfg s)
  show ?case
  proof (cases "iteration s < max_iterations")
    case False
    with "1.prems" show ?thesis
      by (simp add: loop_heads_stop)
  next
    case running: True
    show ?thesis
    proof (cases "loop_body env cfg s")
      case (Break s')
      with running "1.prems" show ?thesis
        by (simp add: loop_heads_Break)
    next
      case (Continue s')
      have "counted (s'\<lparr>iteration := iteration s' + 1\<rparr>)"
        using "1.prems" Continue by (rule counted_Continue)
      with "1.IH" [OF running Continue] "1.prems" running Continue show ?thesis
        by (simp add: loop_heads_Continue)
    qed
  qed
qed

lemma loop_heads_adjacent:
  assumes "Suc i < length (loop_heads env cfg s)"
  shows "\<exists>entry.
           iteration_response (loop_heads env cfg s ! Suc i)
             = iteration_response (loop_heads env cfg s ! i) @ [entry]
         \<and> successful_invocations (trace (loop_heads env cfg s ! Suc i))
             = Suc (successful_invocations (trace (loop_heads env cfg s ! i)))"
  using assms
proof (induction env cfg s arbitrary: i rule: loop_heads.induct)
  case (1 env cfg s)
  show ?case
  proof (cases "iteration s < max_iterations")
    case False
    with "1.prems" show ?thesis
      by (simp add: loop_heads_stop)
  next
    case running: True
    show ?thesis
    proof (cases "loop_body env cfg s")
      case (Break s')
      with running "1.prems" show ?thesis
        by (simp add: loop_heads_Break)
    next
      case (Continue s')
      define nxt where "nxt = s'\<lparr>iteration := iteration s' + 1\<rparr>"
      have heads: "loop_heads env cfg s = s # loop_heads env cfg nxt"
        unfolding nxt_def using running Continue by (rule loop_heads_Continue)
      obtain rest where first: "loop_heads env cfg nxt = nxt # rest"
        using loop_heads_first by blast
      show ?thesis
      proof (cases i)
        case 0
        have "\<exists>entry. iteration_response nxt = iteration_response s @ [entry]
            \<and> successful_invocations (trace nxt) = Suc (successful_invocations (trace s))"
          unfolding nxt_def using loop_body_Continue [OF Continue]
          by (auto simp: successful_invocations_def)
        with 0 heads first show ?thesis
          by simp
      next
        case (Suc j)
        with "1.prems" heads have "Suc j < length (loop_heads env cfg nxt)"
          by simp
        from "1.IH" [OF running Continue, folded nxt_def, OF this] Suc heads show ?thesis
          by simp
      qed
    qed
  qed
qed

text \<open>
  The pass that ends the session adds at most one entry to the transcript of the last
  evaluation of the loop condition.
\<close>

lemma last_loop_heads:
  "\<exists>entries.
     iteration_response (main_loop env cfg s)
       = iteration_response (last (loop_heads env cfg s)) @ entries
   \<and> length entries \<le> 1"
proof (induction env cfg s rule: loop_heads.induct)
  case (1 env cfg s)
  show ?case
  proof (cases "iteration s < max_iterations")
    case False
    then show ?thesis
      by (simp add: loop_heads_stop main_loop_stop)
  next
    case running: True
    show ?thesis
    proof (cases "loop_body env cfg s")
      case (Break s')
      have "\<exists>entries. iteration_response s' = iteration_response s @ entries
          \<and> length entries \<le> 1"
        using loop_body_Break [OF Break] by cases auto
      with running Break show ?thesis
        by (simp add: loop_heads_Break main_loop_Break)
    next
      case (Continue s')
      obtain rest where "loop_heads env cfg (s'\<lparr>iteration := iteration s' + 1\<rparr>)
          = s'\<lparr>iteration := iteration s' + 1\<rparr> # rest"
        using loop_heads_first by blast
      with "1.IH" [OF running Continue] running Continue show ?thesis
        by (simp add: loop_heads_Continue main_loop_Continue)
    qed
  qed
qed

text \<open>
  The only way to end with more calls returned than entries: the last call returned a
  result that lines 336 to 342 could not read.
\<close>

lemma main_loop_unread:
  assumes "counted s"
      and "length (iteration_response (main_loop env cfg s))
             < successful_invocations (trace (main_loop env cfg s))"
  shows "\<exists>earlier func_name arguments result e n.
           trace (main_loop env cfg s)
             = earlier @ [Invoke func_name arguments (Returned result),
                          Print (IterationError n e)]
         \<and> result_text result = Inl e"
  using assms
proof (induction env cfg s rule: main_loop.induct)
  case (1 env cfg s)
  show ?case
  proof (cases "iteration s < max_iterations")
    case False
    with "1.prems" show ?thesis
      by (simp add: main_loop_stop counted_def)
  next
    case running: True
    show ?thesis
    proof (cases "loop_body env cfg s")
      case (Break s')
      from running Break have final: "main_loop env cfg s = s'"
        by (rule main_loop_Break)
      from loop_body_Break [OF Break] show ?thesis
      proof cases
        case (result_unreadable result e func_name arguments)
        then have "trace s' = (trace s @ [Generate (prompt_of cfg s)])
            @ [Invoke func_name arguments (Returned result),
               Print (IterationError (Suc (iteration s)) e)]"
          by simp
        with result_unreadable show ?thesis
          unfolding final by blast
      qed (use "1.prems" final in \<open>auto simp: counted_def successful_invocations_def\<close>)
    next
      case (Continue s')
      define nxt where "nxt = s'\<lparr>iteration := iteration s' + 1\<rparr>"
      have next_counted: "counted nxt"
        unfolding nxt_def using "1.prems"(1) Continue by (rule counted_Continue)
      have unfold: "main_loop env cfg s = main_loop env cfg nxt"
        unfolding nxt_def using running Continue by (rule main_loop_Continue)
      from "1.IH" [OF running Continue, folded nxt_def, OF next_counted]
        "1.prems"(2) [unfolded unfold]
      show ?thesis
        unfolding unfold by blast
    qed
  qed
qed

text \<open>
  Claim C7 does not hold as stated when the result of a call cannot be read: a tool that
  returns an empty content list has been invoked successfully, but line 338 raises and no
  entry is appended.
\<close>

theorem C7_counterexample:
  "successful_invocations (trace (run_session
       (scripted_tools_env [''FUNCTION_CALL: open_paint''] [Returned (ContentList [])])
       example_session)) = 1
   \<and> length (iteration_response (run_session
       (scripted_tools_env [''FUNCTION_CALL: open_paint''] [Returned (ContentList [])])
       example_session)) = 0"
  by code_simp

text \<open>
  Claim C7, amended. An invocation is successful when the remote call returned. Every time
  the loop condition is evaluated, the counter equals the length of the transcript, which
  equals the number of successful invocations so far. From one evaluation to the next the
  transcript gains exactly one entry at its end, and one more invocation has succeeded.
  The transcript at the end of the session is the one of the last evaluation, with at
  most one entry added at its end. Its length is the number of successful invocations or
  one less, and one less only when the session ended on a call that returned a result
  from which no text could be read.
\<close>

theorem C7_transcript_invariant:
  "(\<forall>s \<in> set (loop_heads env cfg (initial_state cfg)).
       iteration s = length (iteration_response s)
     \<and> length (iteration_response s) = successful_invocations (trace s))
   \<and> (\<forall>i. Suc i < length (loop_heads env cfg (initial_state cfg)) \<longrightarrow>
         (\<exists>entry.
            iteration_response (loop_heads env cfg (initial_state cfg) ! Suc i)
              = iteration_response (loop_heads env cfg (initial_state cfg) ! i) @ [entry]
          \<and> successful_invocations (trace (loop_heads env cfg (initial_state cfg) ! Suc i))
              = Suc (successful_invocations
                  (trace (loop_heads env cfg (initial_state cfg) ! i)))))
   \<and> (\<exists>entries.
         iteration_response (run_session env cfg)
           = iteration_response (last (loop_heads env cfg (initial_state cfg))) @ entries
       \<and> length entries \<le> 1)
   \<and> length (iteration_response (run_session env cfg))
       \<le> successful_invocations (trace (run_session env cfg))
   \<and> successful_invocations (trace (run_session env cfg))
       \<le> length (iteration_response (run_session env cfg)) + 1
   \<and> (length (iteration_response (run_session env cfg))
         < successful_invocations (trace (run_session env cfg)) \<longrightarrow>
       (\<exists>earlier func_name arguments result e n.
          trace (run_session env cfg)
            = earlier @ [Invoke func_name arguments (Returned result),
                         Print (IterationError n e)]
        \<and> result_text result = Inl e))"
proof -
  define f where "f = main_loop env cfg (initial_state cfg)"
  note post = main_loop_post [where s = "initial_state cfg" and env = env and cfg = cfg,
      OF counted_initial, folded f_def]
  have run: "run_session env cfg = report_max f"
    by (simp add: run_session_def run_from_def f_def)
  have entries: "iteration_response (run_session env cfg) = iteration_response f"
    by (simp add: run report_max_def)
  have successes: "successful_invocations (trace (run_session env cfg))
      = successful_invocations (trace f)"
    by (simp add: run report_max_def successful_invocations_def)
  have heads: "\<forall>s \<in> set (loop_heads env cfg (initial_state cfg)).
       iteration s = length (iteration_response s)
     \<and> length (iteration_response s) = successful_invocations (trace s)"
    using loop_heads_counted [where s = "initial_state cfg" and env = env and cfg = cfg,
        OF counted_initial]
    by (simp add: counted_def)
  have growth: "\<forall>i. Suc i < length (loop_heads env cfg (initial_state cfg)) \<longrightarrow>
         (\<exists>entry.
            iteration_response (loop_heads env cfg (initial_state cfg) ! Suc i)
              = iteration_response (loop_heads env cfg (initial_state cfg) ! i) @ [entry]
          \<and> successful_invocations (trace (loop_heads env cfg (initial_state cfg) ! Suc i))
              = Suc (successful_invocations
                  (trace (loop_heads env cfg (initial_state cfg) ! i))))"
    using loop_heads_adjacent by blast
  have final: "\<exists>entries.
         iteration_response (run_session env cfg)
           = iteration_response (last (loop_heads env cfg (initial_state cfg))) @ entries
       \<and> length entries \<le> 1"
    unfolding entries f_def by (rule last_loop_heads)
  have lower: "length (iteration_response (run_session env cfg))
       \<le> successful_invocations (trace (run_session env cfg))"
    and upper: "successful_invocations (trace (run_session env cfg))
       \<le> length (iteration_response (run_session env cfg)) + 1"
    unfolding entries successes using post by simp_all
  have unread: "\<exists>earlier func_name arguments result e n.
          trace (run_session env cfg)
            = earlier @ [Invoke func_name arguments (Returned result),
                         Print (IterationError n e)]
        \<and> result_text result = Inl e"
    if less: "length (iteration_response (run_session env cfg))
         < successful_invocations (trace (run_session env cfg))"
  proof -
    from less have less_f: "length (iteration_response f) < successful_invocations (trace f)"
      by (simp add: entries successes)
    have "iteration f < max_iterations"
    proof (rule ccontr)
      assume "\<not> iteration f < max_iterations"
      with post have "counted f"
        by simp
      with less_f show False
        by (simp add: counted_def)
    qed
    then have "run_session env cfg = f"
      by (simp add: run report_max_def)
    with main_loop_unread [where s = "initial_state cfg" and env = env and cfg = cfg,
        OF counted_initial, folded f_def, OF less_f]
    show ?thesis
      by simp
  qed
  from heads growth final lower upper unread show ?thesis
    by blast
qed

theorem C7_transcript_invariant_witness:
  "Suc 0 < length (loop_heads
       (scripted_env [''FUNCTION_CALL: ascii_exp_sum|Hi'', ''FINAL_ANSWER: done''])
       example_session (initial_state example_session))
   \<and> (\<exists>entry.
         iteration_response (loop_heads
             (scripted_env [''FUNCTION_CALL: ascii_exp_sum|Hi'', ''FINAL_ANSWER: done''])
             example_session (initial_state example_session) ! Suc 0)
           = iteration_response (loop_heads
             (scripted_env [''FUNCTION_CALL: ascii_exp_sum|Hi'', ''FINAL_ANSWER: done''])
             example_session (initial_state example_session) ! 0) @ [entry])
   \<and> iteration (loop_heads
         (scripted_env [''FUNCTION_CALL: ascii_exp_sum|Hi'', ''FINAL_ANSWER: done''])
         example_session (initial_state example_session) ! Suc 0)
       = length (iteration_response (loop_heads
         (scripted_env [''FUNCTION_CALL: ascii_exp_sum|Hi'', ''FINAL_ANSWER: done''])
         example_session (initial_state example_session) ! Suc 0))
   \<and> length (iteration_response (run_session
         (scripted_tools_env [''FUNCTION_CALL: open_paint''] [Returned (ContentList [])])
         example_session))
       < successful_invocations (trace (run_session
         (scripted_tools_env [''FUNCTION_CALL: open_paint''] [Returned (ContentList [])])
         example_session))
   \<and> (\<exists>earlier func_name arguments result e n.
         trace (run_session
           (scripted_tools_env [''FUNCTION_CALL: open_paint''] [Returned (ContentList [])])
           example_session)
           = earlier @ [Invoke func_name arguments (Returned result),
                        Print (IterationError n e)]
       \<and> result_text result = Inl e)"
proof -
  let ?heads = "loop_heads
      (scripted_env [''FUNCTION_CALL: ascii_exp_sum|Hi'', ''FINAL_ANSWER: done''])
      example_session (initial_state example_session)"
  let ?unread = "run_session
      (scripted_tools_env [''FUNCTION_CALL: open_paint''] [Returned (ContentList [])])
      example_session"
  have two: "Suc 0 < length ?heads"
    by code_simp
  then have member: "?heads ! Suc 0 \<in> set ?heads"
    by (rule nth_mem)
  have less: "length (iteration_response ?unread) < successful_invocations (trace ?unread)"
    by code_simp
  from two member less
    C7_transcript_invariant
      [of "scripted_env [''FUNCTION_CALL: ascii_exp_sum|Hi'', ''FINAL_ANSWER: done'']"
        example_session]
    C7_transcript_invariant
      [of "scripted_tools_env [''FUNCTION_CALL: open_paint''] [Returned (ContentList [])]"
        example_session]
  show ?thesis
    by blast
qed

section \<open>The recipient of a session\<close>

lemma email_to_address:
  assumes "func_name = ''email_ascii_image'' \<or> func_name = ''send_email_with_attachment''"
  shows "\<exists>arguments.
           map_arguments os input recipient func_name params = Inr arguments
         \<and> map_of arguments ''to_address'' = Some (PStr recipient)"
  using assms by (auto simp: map_arguments_def)

lemma loop_body_new_invoke:
  assumes pass: "loop_body env cfg s = Continue s' \<or> loop_body env cfg s = Break s'"
      and new: "Invoke func_name arguments result \<in> set (trace s')"
      and old: "Invoke func_name arguments result \<notin> set (trace s)"
  shows "\<exists>params.
           map_arguments (os_path_at env (trace s @ [Generate (prompt_of cfg s)]))
             (user_input cfg) (recipient_email cfg) func_name params = Inr arguments"
  using assms
  by (auto simp: loop_body_def fail_def Let_def
        split: outcome.splits option.splits sum.splits directive.splits if_splits)

lemma loop_body_addressed:
  assumes pass: "loop_body env cfg s = Continue s' \<or> loop_body env cfg s = Break s'"
      and before: "addressed cfg (trace s)"
  shows "addressed cfg (trace s')"
  unfolding addressed_def
proof (intro allI impI)
  fix func_name arguments result
  assume email: "Invoke func_name arguments result \<in> set (trace s')
      \<and> (func_name = ''email_ascii_image'' \<or> func_name = ''send_email_with_attachment'')"
  show "map_of arguments ''to_address'' = Some (PStr (recipient_email cfg))"
  proof (cases "Invoke func_name arguments result \<in> set (trace s)")
    case True
    with before email show ?thesis
      unfolding addressed_def by blast
  next
    case False
    with loop_body_new_invoke [OF pass] email obtain params where
      "map_arguments (os_path_at env (trace s @ [Generate (prompt_of cfg s)]))
         (user_input cfg) (recipient_email cfg) func_name params = Inr arguments"
      by blast
    with email email_to_address [of func_name "os_path_at env (trace s @ [Generate (prompt_of cfg s)])"
        "user_input cfg" "recipient_email cfg" params]
    show ?thesis
      by auto
  qed
qed

lemma main_loop_addressed:
  assumes "addressed cfg (trace s)"
  shows "addressed cfg (trace (main_loop env cfg s))"
  using assms
proof (induction env cfg s rule: main_loop.induct)
  case (1 env cfg s)
  show ?case
  proof (cases "iteration s < max_iterations")
    case False
    with "1.prems" show ?thesis
      by (simp add: main_loop_stop)
  next
    case running: True
    show ?thesis
    proof (cases "loop_body env cfg s")
      case (Break s')
      with running "1.prems" loop_body_addressed [of env cfg s s'] show ?thesis
        by (simp add: main_loop_Break)
    next
      case (Continue s')
      have "addressed cfg (trace (s'\<lparr>iteration := iteration s' + 1\<rparr>))"
        using "1.prems" Continue loop_body_addressed [of env cfg s s'] by simp
      with "1.IH" [OF running Continue] running Continue show ?thesis
        by (simp add: main_loop_Continue)
    qed
  qed
qed

lemma run_session_addressed: "addressed cfg (trace (run_session env cfg))"
proof -
  have "addressed cfg (trace (initial_state cfg))"
    by (simp add: addressed_def initial_state_def)
  then have "addressed cfg (trace (main_loop env cfg (initial_state cfg)))"
    by (rule main_loop_addressed)
  then show ?thesis
    by (auto simp: run_session_def run_from_def report_max_def addressed_def)
qed

text \<open>
  Claim C1. For the two tools that send an email, the mapper never fails and the
  \<open>to_address\<close> it produces is the recipient it is given, whatever the positional
  parameters are. The first parameter, where the model would put a recipient of its own,
  is not read at all: two calls that differ only there are mapped to the same arguments.
  The loop gives the mapper the recipient fixed before the loop, so every invocation of
  such a tool in a whole session, whatever the model answers, carries that recipient.
\<close>

theorem C1_recipient_override:
  assumes "func_name = ''email_ascii_image'' \<or> func_name = ''send_email_with_attachment''"
  shows "(\<exists>arguments.
            map_arguments os input recipient func_name params = Inr arguments
          \<and> map_of arguments ''to_address'' = Some (PStr recipient))
       \<and> map_arguments os input recipient func_name (supplied' # rest)
           = map_arguments os input recipient func_name (supplied # rest)
       \<and> (Invoke func_name arguments result \<in> set (trace (run_session env cfg))
            \<longrightarrow> map_of arguments ''to_address'' = Some (PStr (recipient_email cfg)))"
proof (intro conjI impI)
  show "\<exists>arguments.
      map_arguments os input recipient func_name params = Inr arguments
    \<and> map_of arguments ''to_address'' = Some (PStr recipient)"
    using assms by (rule email_to_address)
next
  show "map_arguments os input recipient func_name (supplied' # rest)
      = map_arguments os input recipient func_name (supplied # rest)"
    using assms by (auto simp: map_arguments_def)
next
  assume "Invoke func_name arguments result \<in> set (trace (run_session env cfg))"
  with assms run_session_addressed [of cfg env]
  show "map_of arguments ''to_address'' = Some (PStr (recipient_email cfg))"
    unfolding addressed_def by blast
qed

theorem C1_recipient_override_witness:
  "(\<exists>arguments.
     map_arguments example_os ''Hi'' ''a@b.com'' ''email_ascii_image''
       [''ignored'', ''Result'', ''Body text''] = Inr arguments
   \<and> map_of arguments ''to_address'' = Some (PStr ''a@b.com''))
   \<and> Invoke ''email_ascii_image''
        [(''to_address'', PStr ''a@b.com''), (''subject'', PStr ''Result''),
         (''body'', PStr ''Body text'')]
        (Returned (ContentList [Some ''email_ascii_image(...)'']))
      \<in> set (trace (run_session
          (scripted_env [''FUNCTION_CALL: email_ascii_image|x@evil.org|Result|Body text'',
                         ''FINAL_ANSWER: done''])
          example_session))
   \<and> map_of [(''to_address'', PStr ''a@b.com''), (''subject'', PStr ''Result''),
         (''body'', PStr ''Body text'')] ''to_address''
      = Some (PStr (recipient_email example_session))"
proof -
  let ?arguments = "[(''to_address'', PStr ''a@b.com''), (''subject'', PStr ''Result''),
         (''body'', PStr ''Body text'')]"
  let ?env = "scripted_env [''FUNCTION_CALL: email_ascii_image|x@evil.org|Result|Body text'',
                         ''FINAL_ANSWER: done'']"
  have sent: "Invoke ''email_ascii_image'' ?arguments
        (Returned (ContentList [Some ''email_ascii_image(...)'']))
      \<in> set (trace (run_session ?env example_session))"
    by code_simp
  note C1_recipient_override [where func_name = "''email_ascii_image''" and os = example_os
      and input = "''Hi''" and recipient = "''a@b.com''"
      and params = "[''ignored'', ''Result'', ''Body text'']"
      and arguments = ?arguments
      and result = "Returned (ContentList [Some ''email_ascii_image(...)''])" and env = ?env
      and cfg = example_session]
  with sent show ?thesis
    by (simp add: example_session_def)
qed

end
